theory Spec2Isabelle
  imports Main "HOL-Library.Sublist"
begin

section \<open>Python values used by codex\_server.py\<close>

text \<open>
  A Python \<open>str\<close> is modelled as an Isabelle \<open>string\<close>: each \<open>char\<close> stands for the code
  point of the same number, so the model covers the strings over the code points 0..255.
  A Python \<open>bytes\<close> object is a list of 8-bit characters as well; the two synonyms keep
  them apart in the signatures.
\<close>

type_synonym pystr = string
type_synonym bytes = "char list"

text \<open>The values stored in the dictionaries the tools return.\<close>

datatype pyval = PStr pystr | PInt int | PList "pystr list"

text \<open>A result dictionary, in insertion order; \<open>map_of\<close> reads a key.\<close>

type_synonym pydict = "(pystr \<times> pyval) list"

text \<open>The exceptions that can leave \<open>run_codex\<close> uncaught.\<close>

datatype exn =
    FileExistsError pystr
  | ValueError pystr
  | BinasciiIncorrectPadding
  | BinasciiInvalidLength nat

subsection \<open>String operations\<close>

text \<open>\<open>s.startswith(p)\<close>\<close>

definition startswith :: "pystr \<Rightarrow> pystr \<Rightarrow> bool" where
  "startswith s p = (take (length p) s = p)"

text \<open>\<open>p in s\<close> for strings: \<open>p\<close> occurs in \<open>s\<close> as a contiguous run.\<close>

fun str_contains :: "pystr \<Rightarrow> pystr \<Rightarrow> bool" where
  "str_contains p [] = (p = [])"
| "str_contains p (c # s) = (startswith (c # s) p \<or> str_contains p s)"

text \<open>\<open>sep.join(xs)\<close>\<close>

fun join :: "pystr \<Rightarrow> pystr list \<Rightarrow> pystr" where
  "join sep [] = []"
| "join sep [x] = x"
| "join sep (x # y # ys) = x @ sep @ join sep (y # ys)"

text \<open>
  \<open>c.isspace()\<close> on the code points below 256: tab, line feed, vertical tab, form feed,
  carriage return, the four separators 0x1C..0x1F, space, NEL (0x85) and the no-break
  space (0xA0).
\<close>

definition isspace :: "char \<Rightarrow> bool" where
  "isspace c = ((of_char c :: nat) \<in> {9, 10, 11, 12, 13, 28, 29, 30, 31, 32, 133, 160})"

text \<open>\<open>s.strip()\<close>: whitespace removed at both ends.\<close>

definition strip :: "pystr \<Rightarrow> pystr" where
  "strip s = rev (dropWhile isspace (rev (dropWhile isspace s)))"

text \<open>
  \<open>s.split(",", 1)\<close>: one split at the first comma, or the whole string when there is
  none.
\<close>

definition split_comma1 :: "pystr \<Rightarrow> pystr list" where
  "split_comma1 s =
     (if CHR '','' \<in> set s
      then [takeWhile (\<lambda>c. c \<noteq> CHR '','') s, tl (dropWhile (\<lambda>c. c \<noteq> CHR '','') s)]
      else [s])"

text \<open>\<open>s.encode()\<close>: UTF-8; a code point from 128 to 255 takes two bytes.\<close>

definition encode_char :: "char \<Rightarrow> bytes" where
  "encode_char c =
     (let n = (of_char c :: nat)
      in if n < 128 then [c]
         else [char_of (192 + n div 64), char_of (128 + n mod 64)])"

definition encode :: "pystr \<Rightarrow> bytes" where
  "encode s = concat (map encode_char s)"

section \<open>Task prefixes\<close>

text \<open>The dictionary \<open>task_prefixes\<close> of \<open>_optimize_prompt_for_task\<close>, in source order.\<close>

definition task_prefixes :: "(pystr \<times> pystr) list" where
  "task_prefixes =
    [(''code-generation'',
        ''Generate clean, well-documented code for the following task:\<newline>\<newline>''),
     (''code-explanation'',
        ''Provide a detailed explanation of the following code, including what it does, how it works, and any notable patterns:\<newline>\<newline>''),
     (''debugging'',
        ''Analyze the following code/issue for bugs, explain the problems found, and provide fixes:\<newline>\<newline>''),
     (''refactoring'',
        ''Refactor the following code to improve readability, performance, and maintainability:\<newline>\<newline>''),
     (''testing'',
        ''Write comprehensive tests for the following code or fix existing test issues:\<newline>\<newline>''),
     (''security'',
        ''Perform a security analysis of the following code, identify vulnerabilities, and suggest fixes:\<newline>\<newline>''),
     (''documentation'',
        ''Generate or improve documentation for the following code:\<newline>\<newline>''),
     (''general'', '''')]"

text \<open>\<open>d.get(k, default)\<close> on a dictionary given as an association list.\<close>

definition dict_get :: "('k \<times> 'v) list \<Rightarrow> 'k \<Rightarrow> 'v \<Rightarrow> 'v" where
  "dict_get d k dflt = (case map_of d k of None \<Rightarrow> dflt | Some v \<Rightarrow> v)"

definition optimize_prompt_for_task :: "pystr \<Rightarrow> pystr \<Rightarrow> pystr" where
  "optimize_prompt_for_task prompt task_type =
     (let prefix = dict_get task_prefixes task_type '''' in prefix @ prompt)"

section \<open>The world outside the program\<close>

text \<open>
  What \<open>subprocess.run(cmd, text=True, capture_output=True, check=True)\<close> meets. The child
  ran to its end with a return code, and its two captured streams decoded to the texts
  given. Or the child ran to its end with a return code, and a captured stream does not
  decode in the encoding of the locale: \<open>communicate\<close> has waited for the child by then
  and raises \<open>UnicodeDecodeError\<close>, whose \<open>str\<close> is given. Or there was no child: the
  call raised before one ran (executable not found, permission denied), with the \<open>str\<close>
  of that exception.
\<close>

datatype proc_result =
    Exited int pystr pystr
  | ExitedUndecodable int pystr
  | NotRun pystr

text \<open>The code the child exited with, when there was a child.\<close>

fun exit_code_of :: "proc_result \<Rightarrow> int option" where
  "exit_code_of (Exited returncode out err) = Some returncode"
| "exit_code_of (ExitedUndecodable returncode msg) = Some returncode"
| "exit_code_of (NotRun msg) = None"

text \<open>
  The state the program acts on, with the behaviour of its surroundings as fields:
  the files by path; the names \<open>tempfile\<close> would try, in order (directory, prefix and
  random part), the index of the next one and \<open>tempfile.TMP_MAX\<close>; what a child started
  with an argument vector does (its result and its effect on the files); the text of a
  \<open>CalledProcessError\<close> for a command and return code; every argument vector handed to
  \<open>subprocess.run\<close>, and every line printed to \<open>sys.stderr\<close>.
\<close>

record world =
  files :: "pystr \<rightharpoonup> bytes"
  tmp_names :: "nat \<Rightarrow> pystr"
  tmp_next :: nat
  tmp_max :: nat
  child :: "pystr list \<Rightarrow> proc_result"
  child_files :: "pystr list \<Rightarrow> (pystr \<rightharpoonup> bytes) \<Rightarrow> (pystr \<rightharpoonup> bytes)"
  called_process_error_str :: "pystr list \<Rightarrow> int \<Rightarrow> pystr"
  spawn_calls :: "pystr list list"
  stderr_log :: "pystr list"

text \<open>\<open>print(line, file=sys.stderr)\<close>\<close>

definition print_stderr :: "pystr \<Rightarrow> world \<Rightarrow> world" where
  "print_stderr line w = w\<lparr>stderr_log := stderr_log w @ [line]\<rparr>"

subsection \<open>base64.b64decode\<close>

text \<open>The value of a character of the base64 alphabet.\<close>

definition b64_value :: "char \<Rightarrow> nat option" where
  "b64_value c =
     (let n = (of_char c :: nat)
      in if 65 \<le> n \<and> n \<le> 90 then Some (n - 65)
         else if 97 \<le> n \<and> n \<le> 122 then Some (n - 71)
         else if 48 \<le> n \<and> n \<le> 57 then Some (n + 4)
         else if n = 43 then Some 62
         else if n = 47 then Some 63
         else None)"

text \<open>
  The loop of \<open>binascii.a2b_base64\<close> in its default, non-strict mode: characters outside
  the alphabet are skipped, a padding sign ends the input once the quad it closes has
  two or three data characters, and input that ends inside a quad is an error. The
  arguments are the position in the quad, the bits left over from the last character,
  the padding signs seen in a row and the bytes written so far.
\<close>

fun a2b_base64_loop :: "nat \<Rightarrow> nat \<Rightarrow> nat \<Rightarrow> bytes \<Rightarrow> char list \<Rightarrow> exn + bytes" where
  "a2b_base64_loop quad_pos leftchar pads out [] =
     (if quad_pos \<noteq> 0
      then (if quad_pos = 1 then Inl (BinasciiInvalidLength (length out div 3 * 4 + 1))
            else Inl BinasciiIncorrectPadding)
      else Inr out)"
| "a2b_base64_loop quad_pos leftchar pads out (c # cs) =
     (if c = CHR ''=''
      then (if 2 \<le> quad_pos \<and> 4 \<le> quad_pos + (pads + 1) then Inr out
            else a2b_base64_loop quad_pos leftchar
                   (if 2 \<le> quad_pos then pads + 1 else pads) out cs)
      else (case b64_value c of
              None \<Rightarrow> a2b_base64_loop quad_pos leftchar pads out cs
            | Some v \<Rightarrow>
                (if quad_pos = 0 then a2b_base64_loop 1 v 0 out cs
                 else if quad_pos = 1
                 then a2b_base64_loop 2 (v mod 16) 0
                        (out @ [char_of (leftchar * 4 + v div 16)]) cs
                 else if quad_pos = 2
                 then a2b_base64_loop 3 (v mod 4) 0
                        (out @ [char_of (leftchar * 16 + v div 4)]) cs
                 else a2b_base64_loop 0 0 0 (out @ [char_of (leftchar * 64 + v)]) cs)))"

text \<open>
  \<open>base64.b64decode(s)\<close> on a \<open>str\<close>: the string is encoded as ASCII first, which raises
  \<open>ValueError\<close> on any other character.
\<close>

definition b64decode :: "pystr \<Rightarrow> exn + bytes" where
  "b64decode s =
     (if list_ex (\<lambda>c. 128 \<le> (of_char c :: nat)) s
      then Inl (ValueError ''string argument should contain only ASCII characters'')
      else a2b_base64_loop 0 0 0 [] s)"

subsection \<open>tempfile.NamedTemporaryFile\<close>

text \<open>
  The search for a name: each candidate is opened with exclusive creation, a name in
  use is passed over, and after \<open>TMP_MAX\<close> attempts \<open>FileExistsError\<close> is raised. The file
  it creates is empty.
\<close>

primrec mkstemp_inner :: "nat \<Rightarrow> pystr \<Rightarrow> world \<Rightarrow> (exn + pystr) \<times> world" where
  "mkstemp_inner 0 sfx w =
     (Inl (FileExistsError ''No usable temporary file name found''), w)"
| "mkstemp_inner (Suc k) sfx w =
     (let file = tmp_names w (tmp_next w) @ sfx;
          w1 = w\<lparr>tmp_next := Suc (tmp_next w)\<rparr>
      in if files w file \<noteq> None then mkstemp_inner k sfx w1
         else (Inr file, w1\<lparr>files := (files w)(file \<mapsto> [])\<rparr>))"

text \<open>\<open>tempfile.NamedTemporaryFile(delete=False, suffix=sfx)\<close>, giving the file's name.\<close>

definition NamedTemporaryFile :: "pystr \<Rightarrow> world \<Rightarrow> (exn + pystr) \<times> world" where
  "NamedTemporaryFile sfx w = mkstemp_inner (tmp_max w) sfx w"

text \<open>\<open>temp.write(data)\<close>, seen once the \<open>with\<close> block has closed the file.\<close>

definition file_write :: "pystr \<Rightarrow> bytes \<Rightarrow> world \<Rightarrow> world" where
  "file_write name data w =
     w\<lparr>files := (files w)(name \<mapsto> (case files w name of None \<Rightarrow> data | Some old \<Rightarrow> old @ data))\<rparr>"

section \<open>run\_codex\<close>

text \<open>
  The body of the loop over \<open>images\<close> up to the path it passes on (source lines 68 to 80).
  An exception inside the \<open>with\<close> block leaves the new file behind, closed and empty.
\<close>

definition resolve_image :: "pystr \<Rightarrow> world \<Rightarrow> (exn + pystr) \<times> world" where
  "resolve_image image_path w =
     (if startswith image_path ''data:''
      then (case NamedTemporaryFile ''.png'' w of
              (Inl e, w1) \<Rightarrow> (Inl e, w1)
            | (Inr temp, w1) \<Rightarrow>
                (if str_contains ''base64,'' image_path
                 then (case split_comma1 image_path of
                         [header, encoded] \<Rightarrow>
                           (case b64decode encoded of
                              Inl e \<Rightarrow> (Inl e, w1)
                            | Inr image_data \<Rightarrow> (Inr temp, file_write temp image_data w1))
                       | _ \<Rightarrow> (Inl (ValueError ''not enough values to unpack''), w1))
                 else (Inr temp, file_write temp (encode image_path) w1)))
      else (Inr image_path, w))"

text \<open>The loop \<open>for image_path in images\<close>, extending \<open>cmd\<close>.\<close>

fun images_loop :: "pystr list \<Rightarrow> pystr list \<Rightarrow> world \<Rightarrow> (exn + pystr list) \<times> world" where
  "images_loop cmd [] w = (Inr cmd, w)"
| "images_loop cmd (image_path # rest) w =
     (case resolve_image image_path w of
        (Inl e, w1) \<Rightarrow> (Inl e, w1)
      | (Inr p, w1) \<Rightarrow> images_loop (cmd @ [''--image'', p]) rest w1)"

text \<open>
  The paths the loop passes on, in order, with the loop's effects: what resolving the
  images of a request comes to. It serves to state what \<open>images_loop\<close> computes.
\<close>

fun resolve_images :: "pystr list \<Rightarrow> world \<Rightarrow> (exn + pystr list) \<times> world" where
  "resolve_images [] w = (Inr [], w)"
| "resolve_images (image_path # rest) w =
     (case resolve_image image_path w of
        (Inl e, w1) \<Rightarrow> (Inl e, w1)
      | (Inr p, w1) \<Rightarrow>
          (case resolve_images rest w1 of
             (Inl e, w2) \<Rightarrow> (Inl e, w2)
           | (Inr ps, w2) \<Rightarrow> (Inr (p # ps), w2)))"

text \<open>
  Source lines 47 to 88: the argument vector. An optional string or list is \<open>None\<close> or
  \<open>Some\<close>; Python takes \<open>None\<close>, the empty string and the empty list as false.
\<close>

definition build_command ::
  "pystr \<Rightarrow> pystr option \<Rightarrow> pystr list option \<Rightarrow> pystr \<Rightarrow> bool \<Rightarrow> bool \<Rightarrow> pystr option \<Rightarrow>
   pystr list option \<Rightarrow> world \<Rightarrow> (exn + pystr list) \<times> world" where
  "build_command prompt model images approval_mode quiet json_output provider additional_args w =
     (let cmd0 = [''codex''];
          cmd1 = (if quiet then cmd0 @ [''--quiet''] else cmd0);
          cmd2 = (if json_output then cmd1 @ [''--json''] else cmd1);
          cmd3 = (case model of
                    Some m \<Rightarrow> if m \<noteq> [] then cmd2 @ [''--model'', m] else cmd2
                  | None \<Rightarrow> cmd2);
          cmd4 = (case provider of
                    Some p \<Rightarrow> if p \<noteq> [] then cmd3 @ [''--provider'', p] else cmd3
                  | None \<Rightarrow> cmd3);
          cmd5 = (if approval_mode \<noteq> [] \<and> approval_mode \<noteq> ''suggest''
                  then cmd4 @ [''--approval-mode'', approval_mode] else cmd4)
      in case (case images of
                 Some imgs \<Rightarrow> if imgs \<noteq> [] then images_loop cmd5 imgs w else (Inr cmd5, w)
               | None \<Rightarrow> (Inr cmd5, w)) of
           (Inl e, w1) \<Rightarrow> (Inl e, w1)
         | (Inr cmd6, w1) \<Rightarrow>
             (let cmd7 = (case additional_args of
                            Some args \<Rightarrow> if args \<noteq> [] then cmd6 @ args else cmd6
                          | None \<Rightarrow> cmd6)
              in (Inr (cmd7 @ [prompt]), w1)))"

text \<open>
  The argument vector as the specification enumerates it, from the resolved image paths
  and the extra arguments: the executable, \<open>--quiet\<close>, \<open>--json\<close>, the model, the provider,
  the approval mode unless it is \<open>suggest\<close> (or empty, which Python takes as false as it
  does an empty model or provider), the images, the extra arguments, the prompt.
\<close>

definition argv_in_order ::
  "bool \<Rightarrow> bool \<Rightarrow> pystr option \<Rightarrow> pystr option \<Rightarrow> pystr \<Rightarrow> pystr list \<Rightarrow> pystr list \<Rightarrow> pystr \<Rightarrow>
   pystr list" where
  "argv_in_order quiet json_output model provider approval_mode paths extra prompt =
     [''codex'']
     @ (if quiet then [''--quiet''] else [])
     @ (if json_output then [''--json''] else [])
     @ (case model of Some m \<Rightarrow> if m \<noteq> [] then [''--model'', m] else [] | None \<Rightarrow> [])
     @ (case provider of Some p \<Rightarrow> if p \<noteq> [] then [''--provider'', p] else [] | None \<Rightarrow> [])
     @ (if approval_mode \<noteq> [] \<and> approval_mode \<noteq> ''suggest''
        then [''--approval-mode'', approval_mode] else [])
     @ concat (map (\<lambda>p. [''--image'', p]) paths)
     @ extra
     @ [prompt]"

text \<open>
  \<open>subprocess.run\<close> with \<open>check=True\<close>: a return code other than 0 raises
  \<open>CalledProcessError\<close>, which carries the return code and both captured texts. The
  return code is looked at only once the streams are decoded, so that output that does
  not decode raises \<open>UnicodeDecodeError\<close> whatever the return code.
\<close>

datatype run_exn = CalledProcessError int pystr pystr | OtherException pystr

definition subprocess_run :: "pystr list \<Rightarrow> world \<Rightarrow> (run_exn + pystr \<times> pystr) \<times> world" where
  "subprocess_run cmd w =
     (let w1 = w\<lparr>spawn_calls := spawn_calls w @ [cmd]\<rparr>
      in case child w cmd of
           NotRun msg \<Rightarrow> (Inl (OtherException msg), w1)
         | ExitedUndecodable returncode msg \<Rightarrow>
             (Inl (OtherException msg), w1\<lparr>files := child_files w cmd (files w)\<rparr>)
         | Exited returncode out err \<Rightarrow>
             (let w2 = w1\<lparr>files := child_files w cmd (files w)\<rparr>
              in if returncode \<noteq> 0 then (Inl (CalledProcessError returncode out err), w2)
                 else (Inr (out, err), w2)))"

text \<open>Source lines 92 to 126: the \<open>try\<close> statement around \<open>subprocess.run\<close>.\<close>

definition execute :: "pystr list \<Rightarrow> world \<Rightarrow> pydict \<times> world" where
  "execute cmd w =
     (case subprocess_run cmd w of
        (Inr (out, err), w1) \<Rightarrow>
          ([(''status'', PStr ''success''),
            (''output'', PStr (strip out)),
            (''stderr'', PStr err),
            (''command'', PStr (join '' '' cmd))], w1)
      | (Inl (CalledProcessError returncode out err), w1) \<Rightarrow>
          (let e = called_process_error_str w cmd returncode
           in ([(''status'', PStr ''error''),
                (''error'', PStr e),
                (''output'', PStr out),
                (''stderr'', PStr err),
                (''exit_code'', PInt returncode),
                (''command'', PStr (join '' '' cmd))],
               print_stderr (''Error running codex: '' @ e) w1))
      | (Inl (OtherException e), w1) \<Rightarrow>
          ([(''status'', PStr ''error''),
            (''error'', PStr e),
            (''command'', PStr (join '' '' cmd))],
           print_stderr (''Unexpected error: '' @ e) w1))"

definition run_codex ::
  "pystr \<Rightarrow> pystr option \<Rightarrow> pystr list option \<Rightarrow> pystr \<Rightarrow> bool \<Rightarrow> bool \<Rightarrow> pystr option \<Rightarrow>
   pystr list option \<Rightarrow> world \<Rightarrow> (exn + pydict) \<times> world" where
  "run_codex prompt model images approval_mode quiet json_output provider additional_args w =
     (case build_command prompt model images approval_mode quiet json_output provider
             additional_args w of
        (Inl e, w1) \<Rightarrow> (Inl e, w1)
      | (Inr cmd, w1) \<Rightarrow>
          (let w2 = print_stderr (''Executing command: '' @ join '' '' cmd) w1;
               (result, w3) = execute cmd w2
           in (Inr result, w3)))"

section \<open>The two tools\<close>

text \<open>\<open>xs or []\<close> on an optional list.\<close>

definition or_empty :: "'a list option \<Rightarrow> 'a list" where
  "or_empty xs = (case xs of Some l \<Rightarrow> if l \<noteq> [] then l else [] | None \<Rightarrow> [])"

definition codex_agent ::
  "pystr \<Rightarrow> pystr \<Rightarrow> pystr \<Rightarrow> pystr list option \<Rightarrow> pystr option \<Rightarrow> bool \<Rightarrow> pystr \<Rightarrow>
   pystr list option \<Rightarrow> world \<Rightarrow> (exn + pydict) \<times> world" where
  "codex_agent prompt model approval_mode images provider json_output task_type
      additional_args w =
     (if prompt = []
      then (Inr [(''status'', PStr ''error''),
                 (''error'', PStr ''Missing required parameter: prompt'')], w)
      else (let optimized_prompt = optimize_prompt_for_task prompt task_type
            in run_codex optimized_prompt (Some model) (Some (or_empty images)) approval_mode
                 True json_output provider (Some (or_empty additional_args)) w))"

text \<open>
  \<open>codex_interactive\<close> touches nothing outside itself; it takes and returns the world
  only to stand beside \<open>codex_agent\<close> as a tool.
\<close>

definition codex_interactive ::
  "pystr option \<Rightarrow> pystr \<Rightarrow> pystr \<Rightarrow> pystr option \<Rightarrow> world \<Rightarrow> pydict \<times> world" where
  "codex_interactive initial_prompt model approval_mode provider w =
     (let cmd0 = [''codex''];
          cmd1 = (if model \<noteq> [] then cmd0 @ [''--model'', model] else cmd0);
          cmd2 = (case provider of
                    Some p \<Rightarrow> if p \<noteq> [] then cmd1 @ [''--provider'', p] else cmd1
                  | None \<Rightarrow> cmd1);
          cmd3 = (if approval_mode \<noteq> [] \<and> approval_mode \<noteq> ''suggest''
                  then cmd2 @ [''--approval-mode'', approval_mode] else cmd2);
          cmd4 = (case initial_prompt of
                    Some p \<Rightarrow> if p \<noteq> [] then cmd3 @ [p] else cmd3
                  | None \<Rightarrow> cmd3)
      in ([(''status'', PStr ''info''),
           (''message'',
              PStr ''Interactive Codex session would be started with the following command:''),
           (''command'', PStr (join '' '' cmd4)),
           (''note'',
              PStr ''This requires terminal access. For automated tasks, use codex_agent instead.''),
           (''instructions'',
              PList [''Run this command in your terminal to start the interactive session'',
                     ''Type 'exit' or press Ctrl+C to end the session'',
                     ''Use different approval modes for varying levels of autonomy''])],
          w))"

section \<open>A concrete world\<close>

text \<open>
  No files yet, temporary names \<open>/tmp/tmp\<close>, \<open>/tmp/tmpx\<close>, \<open>/tmp/tmpxx\<close> and so on, and a child
  that prints \<open>ok\<close> and exits with 0 whatever it is given.
\<close>

definition world0 :: world where
  "world0 =
     \<lparr>files = Map.empty,
      tmp_names = (\<lambda>n. ''/tmp/tmp'' @ replicate n CHR ''x''),
      tmp_next = 0,
      tmp_max = 238328,
      child = (\<lambda>cmd. Exited 0 ''ok\<newline>'' ''''),
      child_files = (\<lambda>cmd fs. fs),
      called_process_error_str = (\<lambda>cmd rc. ''Command failed''),
      spawn_calls = [],
      stderr_log = []\<rparr>"

section \<open>Properties\<close>

subsection \<open>Prompt optimisation\<close>

lemma optimize_prompt_for_task_append:
  "optimize_prompt_for_task prompt task_type = dict_get task_prefixes task_type '''' @ prompt"
  by (simp add: optimize_prompt_for_task_def)

lemma dict_get_task_prefixes_unrecognized:
  assumes "task_type \<notin> fst ` set task_prefixes"
  shows "dict_get task_prefixes task_type '''' = ''''"
proof -
  from assms have "map_of task_prefixes task_type = None"
    by (simp add: map_of_eq_None_iff)
  then show ?thesis by (simp add: dict_get_def)
qed

lemma task_prefixes_keys:
  "fst ` set task_prefixes =
     {''code-generation'', ''code-explanation'', ''debugging'', ''refactoring'',
      ''testing'', ''security'', ''documentation'', ''general''}"
  by (simp add: task_prefixes_def insert_commute)

text \<open>
  Claim C4. For every prompt and task type, \<open>_optimize_prompt_for_task\<close> returns a prefix
  followed by the unchanged prompt; the prefix depends on the task type alone, it is
  empty for \<open>general\<close> and for every task type that is not one of the eight keys, and the
  prompt is a suffix of the result.
\<close>

theorem optimize_prompt_prefix_then_prompt:
  "(\<exists>pre. \<forall>prompt. optimize_prompt_for_task prompt task_type = pre @ prompt)
   \<and> optimize_prompt_for_task prompt ''general'' = prompt
   \<and> (task_type \<notin> {''code-generation'', ''code-explanation'', ''debugging'', ''refactoring'',
          ''testing'', ''security'', ''documentation'', ''general''}
        \<longrightarrow> optimize_prompt_for_task prompt task_type = prompt)
   \<and> suffix prompt (optimize_prompt_for_task prompt task_type)"
proof (intro conjI impI)
  show "\<exists>pre. \<forall>prompt. optimize_prompt_for_task prompt task_type = pre @ prompt"
    using optimize_prompt_for_task_append by blast
  show "optimize_prompt_for_task prompt ''general'' = prompt"
    by (simp add: optimize_prompt_for_task_def dict_get_def task_prefixes_def)
  show "optimize_prompt_for_task prompt task_type = prompt"
    if "task_type \<notin> {''code-generation'', ''code-explanation'', ''debugging'',
          ''refactoring'', ''testing'', ''security'', ''documentation'', ''general''}"
  proof -
    from that have "task_type \<notin> fst ` set task_prefixes"
      unfolding task_prefixes_keys by assumption
    then have "dict_get task_prefixes task_type [] = []"
      by (rule dict_get_task_prefixes_unrecognized)
    then show ?thesis
      by (simp add: optimize_prompt_for_task_append)
  qed
  show "suffix prompt (optimize_prompt_for_task prompt task_type)"
    unfolding optimize_prompt_for_task_append by (rule suffixI) (rule refl)
qed

theorem optimize_prompt_prefix_then_prompt_witness:
  "optimize_prompt_for_task ''fix it'' ''poetry'' = ''fix it''
   \<and> ''poetry'' \<notin> {''code-generation'', ''code-explanation'', ''debugging'', ''refactoring'',
          ''testing'', ''security'', ''documentation'', ''general''}
   \<and> suffix ''fix it'' (optimize_prompt_for_task ''fix it'' ''poetry'')"
  using optimize_prompt_prefix_then_prompt [of "''poetry''" "''fix it''"]
  by simp

subsection \<open>Temporary files\<close>

lemma mkstemp_inner_Inr:
  "mkstemp_inner k sfx w = (Inr p, w') \<Longrightarrow>
     files w p = None \<and> suffix sfx p
     \<and> (\<exists>n. w' = w\<lparr>files := (files w)(p \<mapsto> []), tmp_next := n\<rparr>)"
proof (induction k arbitrary: w)
  case 0
  then show ?case by simp
next
  case (Suc k)
  let ?file = "tmp_names w (tmp_next w) @ sfx"
  let ?w1 = "w\<lparr>tmp_next := Suc (tmp_next w)\<rparr>"
  show ?case
  proof (cases "files w ?file = None")
    case True
    from Suc.prems True have p: "p = ?file"
      and w': "w' = ?w1\<lparr>files := (files w)(?file \<mapsto> [])\<rparr>"
      by (auto simp add: Let_def)
    have "suffix sfx p" unfolding p by (rule suffixI) (rule refl)
    moreover have "files w p = None" using True p by simp
    moreover have "w' = w\<lparr>files := (files w)(p \<mapsto> []), tmp_next := Suc (tmp_next w)\<rparr>"
      unfolding w' p by simp
    then have "\<exists>n. w' = w\<lparr>files := (files w)(p \<mapsto> []), tmp_next := n\<rparr>" ..
    ultimately show ?thesis by blast
  next
    case False
    with Suc.prems have "mkstemp_inner k sfx ?w1 = (Inr p, w')"
      by (simp add: Let_def)
    from Suc.IH [OF this] obtain n where "files ?w1 p = None" and "suffix sfx p"
      and w': "w' = ?w1\<lparr>files := (files ?w1)(p \<mapsto> []), tmp_next := n\<rparr>"
      by blast
    from w' have "w' = w\<lparr>files := (files w)(p \<mapsto> []), tmp_next := n\<rparr>"
      by simp
    then have "\<exists>n. w' = w\<lparr>files := (files w)(p \<mapsto> []), tmp_next := n\<rparr>" ..
    moreover from \<open>files ?w1 p = None\<close> have "files w p = None" by simp
    ultimately show ?thesis using \<open>suffix sfx p\<close> by blast
  qed
qed

lemma mkstemp_inner_Inl:
  "mkstemp_inner k sfx w = (Inl e, w') \<Longrightarrow> \<exists>n. w' = w\<lparr>tmp_next := n\<rparr>"
proof (induction k arbitrary: w)
  case 0
  then have "w' = w\<lparr>tmp_next := tmp_next w\<rparr>" by simp
  then show ?case ..
next
  case (Suc k)
  let ?w1 = "w\<lparr>tmp_next := Suc (tmp_next w)\<rparr>"
  from Suc.prems have "mkstemp_inner k sfx ?w1 = (Inl e, w')"
    by (simp add: Let_def split: if_splits)
  from Suc.IH [OF this] obtain n where "w' = ?w1\<lparr>tmp_next := n\<rparr>" ..
  then have "w' = w\<lparr>tmp_next := n\<rparr>" by simp
  then show ?case ..
qed

lemma mkstemp_inner_succeeds:
  "j < k \<Longrightarrow> files w (tmp_names w (tmp_next w + j) @ sfx) = None \<Longrightarrow>
     \<exists>p w'. mkstemp_inner k sfx w = (Inr p, w')"
proof (induction k arbitrary: w j)
  case 0
  then show ?case by simp
next
  case (Suc k)
  let ?file = "tmp_names w (tmp_next w) @ sfx"
  let ?w1 = "w\<lparr>tmp_next := Suc (tmp_next w)\<rparr>"
  show ?case
  proof (cases "files w ?file = None")
    case True
    then show ?thesis by (simp add: Let_def)
  next
    case False
    with Suc.prems(2) have "j \<noteq> 0" by (cases j) auto
    then obtain j' where j: "j = Suc j'" by (cases j) auto
    with Suc.prems have "j' < k"
      and "files ?w1 (tmp_names ?w1 (tmp_next ?w1 + j') @ sfx) = None"
      by simp_all
    from Suc.IH [OF this] False show ?thesis by (simp add: Let_def)
  qed
qed

lemma mkstemp_inner_first_free:
  assumes "0 < k" and "files w (tmp_names w (tmp_next w) @ sfx) = None"
  shows "mkstemp_inner k sfx w =
           (Inr (tmp_names w (tmp_next w) @ sfx),
            w\<lparr>tmp_next := Suc (tmp_next w),
              files := (files w)(tmp_names w (tmp_next w) @ sfx \<mapsto> [])\<rparr>)"
  using assms by (cases k) (simp_all add: Let_def)

subsection \<open>The argument vector in closed form\<close>

lemma resolve_image_plain:
  "\<not> startswith image_path ''data:'' \<Longrightarrow> resolve_image image_path w = (Inr image_path, w)"
  by (simp add: resolve_image_def)

lemma file_write_fresh:
  "file_write p data (w\<lparr>files := (files w)(p \<mapsto> []), tmp_next := n\<rparr>)
     = w\<lparr>files := (files w)(p \<mapsto> data), tmp_next := n\<rparr>"
  by (simp add: file_write_def)

lemma images_loop_resolve_images:
  "images_loop cmd imgs w =
     (case resolve_images imgs w of
        (Inl e, w') \<Rightarrow> (Inl e, w')
      | (Inr ps, w') \<Rightarrow> (Inr (cmd @ concat (map (\<lambda>p. [''--image'', p]) ps)), w'))"
proof (induction imgs arbitrary: cmd w)
  case Nil
  show ?case by simp
next
  case (Cons image_path rest)
  show ?case
  proof (cases "resolve_image image_path w")
    case (Pair r w1)
    show ?thesis
    proof (cases r)
      case (Inl e)
      with Pair show ?thesis by simp
    next
      case (Inr p)
      with Pair Cons.IH [of "cmd @ [''--image'', p]" w1] show ?thesis
        by (simp split: prod.splits sum.splits)
    qed
  qed
qed

lemma images_branch:
  "(case images of Some imgs \<Rightarrow> if imgs \<noteq> [] then images_loop cmd imgs w else (Inr cmd, w)
    | None \<Rightarrow> (Inr cmd, w))
   = (case resolve_images (or_empty images) w of
        (Inl e, w') \<Rightarrow> (Inl e, w')
      | (Inr ps, w') \<Rightarrow> (Inr (cmd @ concat (map (\<lambda>p. [''--image'', p]) ps)), w'))"
  by (simp add: or_empty_def images_loop_resolve_images split: option.splits)

lemma build_command_closed:
  "build_command prompt model images approval_mode quiet json_output provider additional_args w =
     (case resolve_images (or_empty images) w of
        (Inl e, w') \<Rightarrow> (Inl e, w')
      | (Inr paths, w') \<Rightarrow>
          (Inr (argv_in_order quiet json_output model provider approval_mode paths
                  (or_empty additional_args) prompt), w'))"
proof (cases "resolve_images (or_empty images) w")
  case (Pair r w')
  show ?thesis
  proof (cases r)
    case (Inl e)
    with Pair show ?thesis
      unfolding build_command_def Let_def images_branch
      by simp
  next
    case (Inr paths)
    with Pair show ?thesis
      unfolding build_command_def Let_def images_branch
      by (simp add: argv_in_order_def or_empty_def split: option.splits)
  qed
qed

subsection \<open>Resolving images\<close>

lemma resolve_image_data:
  assumes "startswith image_path ''data:''"
    and "NamedTemporaryFile ''.png'' w = (Inr temp, w1)"
    and "resolve_image image_path w = (Inr p, w')"
  shows "p = temp \<and> (\<exists>data. w' = file_write temp data w1)"
proof (cases "str_contains ''base64,'' image_path")
  case False
  with assms show ?thesis by (auto simp: resolve_image_def)
next
  case True
  with assms have
    "(case split_comma1 image_path of
        [header, encoded] \<Rightarrow>
          (case b64decode encoded of
             Inl e \<Rightarrow> (Inl e, w1)
           | Inr image_data \<Rightarrow> (Inr temp, file_write temp image_data w1))
      | _ \<Rightarrow> (Inl (ValueError ''not enough values to unpack''), w1)) = (Inr p, w')"
    by (simp add: resolve_image_def)
  then show ?thesis
    by (auto split: list.splits sum.splits)
qed

lemma resolve_image_Inr:
  assumes "resolve_image image_path w = (Inr p, w')"
  shows "(\<not> startswith image_path ''data:'' \<and> p = image_path \<and> w' = w)
       \<or> (startswith image_path ''data:'' \<and> files w p = None \<and> suffix ''.png'' p
           \<and> (\<exists>n data. w' = w\<lparr>files := (files w)(p \<mapsto> data), tmp_next := n\<rparr>))"
proof (cases "startswith image_path ''data:''")
  case False
  with assms show ?thesis by (simp add: resolve_image_plain)
next
  case True
  obtain r1 w1 where tmp: "NamedTemporaryFile ''.png'' w = (r1, w1)"
    by (cases "NamedTemporaryFile ''.png'' w")
  show ?thesis
  proof (cases r1)
    case (Inl e)
    with assms True tmp show ?thesis by (simp add: resolve_image_def)
  next
    case (Inr temp)
    with tmp have t: "NamedTemporaryFile ''.png'' w = (Inr temp, w1)" by simp
    from resolve_image_data [OF True t assms] obtain data where
      p: "p = temp" and w': "w' = file_write temp data w1" by blast
    from t have "mkstemp_inner (tmp_max w) ''.png'' w = (Inr temp, w1)"
      by (simp add: NamedTemporaryFile_def)
    from mkstemp_inner_Inr [OF this] obtain n where
      free: "files w temp = None" and sfx: "suffix ''.png'' temp"
      and w1: "w1 = w\<lparr>files := (files w)(temp \<mapsto> []), tmp_next := n\<rparr>"
      by blast
    have "w' = w\<lparr>files := (files w)(p \<mapsto> data), tmp_next := n\<rparr>"
      unfolding w' w1 p by (rule file_write_fresh)
    then have "\<exists>n data. w' = w\<lparr>files := (files w)(p \<mapsto> data), tmp_next := n\<rparr>"
      by blast
    with True free sfx p show ?thesis by simp
  qed
qed

lemma resolve_images_length:
  "resolve_images imgs w = (Inr ps, w') \<Longrightarrow> length ps = length imgs"
proof (induction imgs arbitrary: w ps)
  case Nil
  then show ?case by simp
next
  case (Cons image_path rest)
  then show ?case
    by (auto split: prod.splits sum.splits)
qed

lemma resolve_images_Cons_Inr:
  assumes "resolve_images (image_path # rest) w = (Inr ps, w')"
  obtains p w1 ps' where "resolve_image image_path w = (Inr p, w1)"
    and "resolve_images rest w1 = (Inr ps', w')" and "ps = p # ps'"
  using assms by (auto split: prod.splits sum.splits)

lemma resolve_images_nth_plain:
  "resolve_images imgs w = (Inr ps, w') \<Longrightarrow> i < length imgs \<Longrightarrow>
     \<not> startswith (imgs ! i) ''data:'' \<Longrightarrow> ps ! i = imgs ! i"
proof (induction imgs arbitrary: w ps i)
  case Nil
  then show ?case by simp
next
  case (Cons image_path rest)
  from Cons.prems(1) obtain p w1 ps' where
    step: "resolve_image image_path w = (Inr p, w1)"
    and rest: "resolve_images rest w1 = (Inr ps', w')" and ps: "ps = p # ps'"
    by (rule resolve_images_Cons_Inr)
  show ?case
  proof (cases i)
    case 0
    with Cons.prems(3) have "\<not> startswith image_path ''data:''" by simp
    with step have "p = image_path" by (simp add: resolve_image_plain)
    with 0 ps show ?thesis by simp
  next
    case (Suc i')
    with Cons.prems have "i' < length rest" and "\<not> startswith (rest ! i') ''data:''"
      by simp_all
    from Cons.IH [OF rest this] Suc ps show ?thesis by simp
  qed
qed

lemma resolve_images_paths:
  "resolve_images imgs w = (Inr ps, w') \<Longrightarrow> p \<in> set ps \<Longrightarrow>
     p \<in> set imgs \<or> suffix ''.png'' p"
proof (induction imgs arbitrary: w ps)
  case Nil
  then show ?case by simp
next
  case (Cons image_path rest)
  from Cons.prems(1) obtain q w1 ps' where
    step: "resolve_image image_path w = (Inr q, w1)"
    and rest: "resolve_images rest w1 = (Inr ps', w')" and ps: "ps = q # ps'"
    by (rule resolve_images_Cons_Inr)
  from Cons.prems(2) ps consider "p = q" | "p \<in> set ps'" by auto
  then show ?case
  proof cases
    case 1
    with resolve_image_Inr [OF step] show ?thesis by auto
  next
    case 2
    from Cons.IH [OF rest this] show ?thesis by auto
  qed
qed

lemma resolve_images_plain:
  "list_all (\<lambda>img. \<not> startswith img ''data:'') imgs \<Longrightarrow> resolve_images imgs w = (Inr imgs, w)"
  by (induction imgs) (simp_all add: resolve_image_plain)

subsection \<open>The order of the arguments\<close>

text \<open>
  Claim C3. For every request, lines 47 to 88 of \<open>run_codex\<close> give the argument vector in
  the fixed order: \<open>codex\<close>; \<open>--quiet\<close> if quiet; \<open>--json\<close> if JSON output is asked for;
  \<open>--model\<close> and the model if one is given; \<open>--provider\<close> and the provider if one is given;
  \<open>--approval-mode\<close> and the mode only if the mode differs from \<open>suggest\<close>; \<open>--image\<close> and
  the resolved path for each image in order; the extra arguments as they are; the prompt
  last. The vector exists unless resolving an image raised, and the exception then
  leaves \<open>run_codex\<close>.
\<close>

theorem build_command_argument_order:
  "build_command prompt model images approval_mode quiet json_output provider additional_args w =
     (case resolve_images (or_empty images) w of
        (Inl e, w') \<Rightarrow> (Inl e, w')
      | (Inr paths, w') \<Rightarrow>
          (Inr ([''codex'']
                @ (if quiet then [''--quiet''] else [])
                @ (if json_output then [''--json''] else [])
                @ (case model of
                     Some m \<Rightarrow> if m \<noteq> [] then [''--model'', m] else []
                   | None \<Rightarrow> [])
                @ (case provider of
                     Some p \<Rightarrow> if p \<noteq> [] then [''--provider'', p] else []
                   | None \<Rightarrow> [])
                @ (if approval_mode \<noteq> [] \<and> approval_mode \<noteq> ''suggest''
                   then [''--approval-mode'', approval_mode] else [])
                @ concat (map (\<lambda>p. [''--image'', p]) paths)
                @ or_empty additional_args
                @ [prompt]), w'))"
proof (cases "resolve_images (or_empty images) w")
  case (Pair r w')
  show ?thesis
  proof (cases r)
    case (Inl e)
    with Pair show ?thesis
      unfolding build_command_def Let_def images_branch
      by simp
  next
    case (Inr paths)
    with Pair show ?thesis
      unfolding build_command_def Let_def images_branch
      by (simp add: or_empty_def split: option.splits)
  qed
qed

theorem build_command_argument_order_witness:
  "build_command ''hello'' (Some ''o4-mini'') (Some [''a.png'', ''b.png'']) ''full-auto'' True True
      (Some ''openai'') (Some [''--flag'']) world0
   = (Inr [''codex'', ''--quiet'', ''--json'', ''--model'', ''o4-mini'', ''--provider'', ''openai'',
           ''--approval-mode'', ''full-auto'', ''--image'', ''a.png'', ''--image'', ''b.png'',
           ''--flag'', ''hello''], world0)"
proof -
  have "resolve_images [''a.png'', ''b.png''] world0 = (Inr [''a.png'', ''b.png''], world0)"
    by (rule resolve_images_plain) (simp add: startswith_def)
  then show ?thesis
    using build_command_argument_order [of "''hello''" "Some ''o4-mini''"
        "Some [''a.png'', ''b.png'']" "''full-auto''" True True "Some ''openai''"
        "Some [''--flag'']" world0]
    by (simp add: or_empty_def)
qed

subsection \<open>Images given as paths\<close>

text \<open>
  Claim C8. An entry of \<open>images\<close> that does not start with \<open>data:\<close> is passed on as it
  is and leaves the files alone: the step of the loop returns the entry and the
  unchanged world, and appends \<open>--image\<close> and the entry to \<open>cmd\<close>; in any list of images
  that resolves, the path at the index of such an entry is the entry; and when no entry
  starts with \<open>data:\<close> the argument vector has the entries themselves and the world is
  the one before.
\<close>

theorem plain_image_unchanged:
  "(\<not> startswith img ''data:'' \<longrightarrow>
      resolve_image img w = (Inr img, w)
      \<and> images_loop cmd (img # rest) w = images_loop (cmd @ [''--image'', img]) rest w)
   \<and> (resolve_images imgs w = (Inr paths, w') \<and> i < length imgs
        \<and> \<not> startswith (imgs ! i) ''data:'' \<longrightarrow> paths ! i = imgs ! i)
   \<and> (list_all (\<lambda>img. \<not> startswith img ''data:'') imgs \<longrightarrow>
        build_command prompt model (Some imgs) approval_mode quiet json_output provider
          additional_args w
        = (Inr (argv_in_order quiet json_output model provider approval_mode imgs
                  (or_empty additional_args) prompt), w))"
proof (intro conjI impI)
  assume plain: "\<not> startswith img ''data:''"
  then show "resolve_image img w = (Inr img, w)"
    by (rule resolve_image_plain)
  then show "images_loop cmd (img # rest) w = images_loop (cmd @ [''--image'', img]) rest w"
    by simp
next
  assume "resolve_images imgs w = (Inr paths, w') \<and> i < length imgs
            \<and> \<not> startswith (imgs ! i) ''data:''"
  then show "paths ! i = imgs ! i"
    using resolve_images_nth_plain by blast
next
  assume "list_all (\<lambda>img. \<not> startswith img ''data:'') imgs"
  then have "resolve_images imgs w = (Inr imgs, w)"
    by (rule resolve_images_plain)
  moreover have "or_empty (Some imgs) = imgs"
    by (simp add: or_empty_def)
  ultimately show "build_command prompt model (Some imgs) approval_mode quiet json_output
      provider additional_args w
    = (Inr (argv_in_order quiet json_output model provider approval_mode imgs
              (or_empty additional_args) prompt), w)"
    by (simp add: build_command_closed)
qed

theorem plain_image_unchanged_witness:
  "\<not> startswith ''design.png'' ''data:''
   \<and> resolve_image ''design.png'' world0 = (Inr ''design.png'', world0)
   \<and> list_all (\<lambda>img. \<not> startswith img ''data:'') [''design.png'']
   \<and> build_command ''go'' None (Some [''design.png'']) ''suggest'' True False None None world0
       = (Inr [''codex'', ''--quiet'', ''--image'', ''design.png'', ''go''], world0)
   \<and> resolve_images [''design.png''] world0 = (Inr [''design.png''], world0)
   \<and> [''design.png''] ! 0 = ''design.png''"
proof -
  have plain: "\<not> startswith ''design.png'' ''data:''"
    by (simp add: startswith_def)
  then have all: "list_all (\<lambda>img. \<not> startswith img ''data:'') [''design.png'']"
    by simp
  have res: "resolve_images [''design.png''] world0 = (Inr [''design.png''], world0)"
    using all by (rule resolve_images_plain)
  from plain all res
    plain_image_unchanged [of "''design.png''" world0 "[]" "[]" "[''design.png'']"
      "[''design.png'']" world0 0 "''go''" None "''suggest''" True False None None]
  show ?thesis
    by (simp add: argv_in_order_def or_empty_def)
qed

subsection \<open>The approval mode\<close>

lemma not_png_approval_flag: "\<not> suffix ''.png'' ''--approval-mode''"
  by (simp add: suffix_to_prefix)

text \<open>
  Claim C5, as amended. Whenever the images of a request resolve, the argument vector is
  built, and: with the approval mode \<open>suggest\<close> no \<open>--approval-mode\<close> is put into it, so
  that the string is in the vector only if the caller passed it in as the model, the
  provider, an image, an extra argument or the prompt; with an approval mode that is
  neither \<open>suggest\<close> nor empty, the vector holds \<open>--approval-mode\<close> followed at once by the
  mode as it was given.
\<close>

theorem approval_mode_flag:
  assumes "resolve_images (or_empty images) w = (Inr paths, w')"
  shows "\<exists>cmd. build_command prompt model images approval_mode quiet json_output provider
                additional_args w = (Inr cmd, w')
           \<and> (approval_mode = ''suggest''
                \<and> ''--approval-mode'' \<notin> set (or_empty images) \<union> set (or_empty additional_args)
                                          \<union> set_option model \<union> set_option provider \<union> {prompt}
               \<longrightarrow> ''--approval-mode'' \<notin> set cmd)
           \<and> (approval_mode \<noteq> ''suggest'' \<and> approval_mode \<noteq> []
               \<longrightarrow> (\<exists>pre post. cmd = pre @ [''--approval-mode'', approval_mode] @ post))"
proof -
  let ?cmd = "argv_in_order quiet json_output model provider approval_mode paths
                (or_empty additional_args) prompt"
  from assms have built: "build_command prompt model images approval_mode quiet json_output
      provider additional_args w = (Inr ?cmd, w')"
    by (simp add: build_command_closed)
  have absent: "''--approval-mode'' \<notin> set ?cmd"
    if mode: "approval_mode = ''suggest''"
      and caller: "''--approval-mode'' \<notin> set (or_empty images) \<union> set (or_empty additional_args)
                     \<union> set_option model \<union> set_option provider \<union> {prompt}"
  proof -
    have "''--approval-mode'' \<notin> set paths"
    proof
      assume "''--approval-mode'' \<in> set paths"
      with assms have "''--approval-mode'' \<in> set (or_empty images)
          \<or> suffix ''.png'' ''--approval-mode''"
        by (rule resolve_images_paths)
      with caller not_png_approval_flag show False by simp
    qed
    with mode caller show ?thesis
      by (auto simp: argv_in_order_def split: option.splits if_splits)
  qed
  have present: "\<exists>pre post. ?cmd = pre @ [''--approval-mode'', approval_mode] @ post"
    if "approval_mode \<noteq> ''suggest'' \<and> approval_mode \<noteq> []"
  proof -
    let ?pre = "[''codex'']
                @ (if quiet then [''--quiet''] else [])
                @ (if json_output then [''--json''] else [])
                @ (case model of
                     Some m \<Rightarrow> if m \<noteq> [] then [''--model'', m] else []
                   | None \<Rightarrow> [])
                @ (case provider of
                     Some p \<Rightarrow> if p \<noteq> [] then [''--provider'', p] else []
                   | None \<Rightarrow> [])"
    let ?post = "concat (map (\<lambda>p. [''--image'', p]) paths) @ or_empty additional_args @ [prompt]"
    from that have "?cmd = ?pre @ [''--approval-mode'', approval_mode] @ ?post"
      by (simp add: argv_in_order_def)
    then show ?thesis by blast
  qed
  from built absent present show ?thesis by blast
qed

theorem approval_mode_flag_witness:
  "resolve_images (or_empty None) world0 = (Inr [], world0)
   \<and> build_command ''hi'' (Some ''o4-mini'') None ''suggest'' True False None None world0
       = (Inr [''codex'', ''--quiet'', ''--model'', ''o4-mini'', ''hi''], world0)
   \<and> build_command ''hi'' (Some ''o4-mini'') None ''full-auto'' True False None None world0
       = (Inr ([''codex'', ''--quiet'', ''--model'', ''o4-mini'']
               @ [''--approval-mode'', ''full-auto''] @ [''hi'']), world0)
   \<and> (\<exists>cmd. build_command ''hi'' (Some ''o4-mini'') None ''suggest'' True False None None world0
              = (Inr cmd, world0) \<and> ''--approval-mode'' \<notin> set cmd)
   \<and> (\<exists>cmd. build_command ''hi'' (Some ''o4-mini'') None ''full-auto'' True False None None world0
              = (Inr cmd, world0)
            \<and> (\<exists>pre post. cmd = pre @ [''--approval-mode'', ''full-auto''] @ post))"
proof -
  have res: "resolve_images (or_empty None) world0 = (Inr [], world0)"
    by (simp add: or_empty_def)
  have s: "build_command ''hi'' (Some ''o4-mini'') None ''suggest'' True False None None world0
       = (Inr [''codex'', ''--quiet'', ''--model'', ''o4-mini'', ''hi''], world0)"
    by (simp add: build_command_closed res argv_in_order_def or_empty_def)
  have f: "build_command ''hi'' (Some ''o4-mini'') None ''full-auto'' True False None None world0
       = (Inr ([''codex'', ''--quiet'', ''--model'', ''o4-mini'']
               @ [''--approval-mode'', ''full-auto''] @ [''hi'']), world0)"
    by (simp add: build_command_closed res argv_in_order_def or_empty_def)
  from approval_mode_flag [OF res, of "''hi''" "Some ''o4-mini''" "''suggest''" True False None None]
  have a: "\<exists>cmd. build_command ''hi'' (Some ''o4-mini'') None ''suggest'' True False None None world0
              = (Inr cmd, world0) \<and> ''--approval-mode'' \<notin> set cmd"
    by (simp add: or_empty_def)
  from approval_mode_flag [OF res, of "''hi''" "Some ''o4-mini''" "''full-auto''" True False None None]
  have b: "\<exists>cmd. build_command ''hi'' (Some ''o4-mini'') None ''full-auto'' True False None None world0
              = (Inr cmd, world0)
            \<and> (\<exists>pre post. cmd = pre @ [''--approval-mode'', ''full-auto''] @ post)"
    by simp
  from res s f a b show ?thesis by blast
qed

theorem approval_mode_empty_counterexample:
  "[] \<noteq> ''suggest''
   \<and> build_command ''hi'' (Some ''o4-mini'') None [] True False None None world0
       = (Inr [''codex'', ''--quiet'', ''--model'', ''o4-mini'', ''hi''], world0)
   \<and> ''--approval-mode'' \<notin> set [''codex'', ''--quiet'', ''--model'', ''o4-mini'', ''hi'']"
proof -
  have res: "resolve_images (or_empty None) world0 = (Inr [], world0)"
    by (simp add: or_empty_def)
  show ?thesis
    by (simp add: build_command_closed res argv_in_order_def or_empty_def)
qed

subsection \<open>The empty approval mode\<close>

text \<open>
  Claim C10. With the empty string as approval mode, which is none of \<open>suggest\<close>,
  \<open>auto-edit\<close> and \<open>full-auto\<close>, the command built for \<open>codex_agent\<close> and the command
  reported by \<open>codex_interactive\<close> have no \<open>--approval-mode\<close> flag: the vector goes from the
  provider straight to the images, or to the initial prompt, and both tools do exactly
  what they do for \<open>suggest\<close>.
\<close>

theorem empty_approval_mode_as_suggest:
  "build_command prompt model images [] quiet json_output provider additional_args w
     = build_command prompt model images ''suggest'' quiet json_output provider additional_args w
   \<and> build_command prompt model images [] quiet json_output provider additional_args w
     = (case resolve_images (or_empty images) w of
          (Inl e, w') \<Rightarrow> (Inl e, w')
        | (Inr paths, w') \<Rightarrow>
            (Inr ([''codex'']
                  @ (if quiet then [''--quiet''] else [])
                  @ (if json_output then [''--json''] else [])
                  @ (case model of
                       Some m \<Rightarrow> if m \<noteq> [] then [''--model'', m] else []
                     | None \<Rightarrow> [])
                  @ (case provider of
                       Some p \<Rightarrow> if p \<noteq> [] then [''--provider'', p] else []
                     | None \<Rightarrow> [])
                  @ concat (map (\<lambda>p. [''--image'', p]) paths)
                  @ or_empty additional_args
                  @ [prompt]), w'))
   \<and> codex_agent prompt agent_model [] images provider json_output task_type additional_args w
     = codex_agent prompt agent_model ''suggest'' images provider json_output task_type
         additional_args w
   \<and> codex_interactive initial_prompt agent_model [] provider w
     = codex_interactive initial_prompt agent_model ''suggest'' provider w
   \<and> map_of (fst (codex_interactive initial_prompt agent_model [] provider w)) ''command''
     = Some (PStr (join '' ''
          ([''codex'']
           @ (if agent_model \<noteq> [] then [''--model'', agent_model] else [])
           @ (case provider of
                Some p \<Rightarrow> if p \<noteq> [] then [''--provider'', p] else []
              | None \<Rightarrow> [])
           @ (case initial_prompt of Some p \<Rightarrow> if p \<noteq> [] then [p] else [] | None \<Rightarrow> []))))"
proof (intro conjI)
  show b: "build_command prompt model images [] quiet json_output provider additional_args w
     = build_command prompt model images ''suggest'' quiet json_output provider additional_args w"
    for prompt model images quiet json_output provider additional_args
    by (simp add: build_command_closed argv_in_order_def split: prod.splits sum.splits)
  show "build_command prompt model images [] quiet json_output provider additional_args w
     = (case resolve_images (or_empty images) w of
          (Inl e, w') \<Rightarrow> (Inl e, w')
        | (Inr paths, w') \<Rightarrow>
            (Inr ([''codex'']
                  @ (if quiet then [''--quiet''] else [])
                  @ (if json_output then [''--json''] else [])
                  @ (case model of
                       Some m \<Rightarrow> if m \<noteq> [] then [''--model'', m] else []
                     | None \<Rightarrow> [])
                  @ (case provider of
                       Some p \<Rightarrow> if p \<noteq> [] then [''--provider'', p] else []
                     | None \<Rightarrow> [])
                  @ concat (map (\<lambda>p. [''--image'', p]) paths)
                  @ or_empty additional_args
                  @ [prompt]), w'))"
    by (simp add: build_command_closed argv_in_order_def split: prod.splits sum.splits)
  show "codex_agent prompt agent_model [] images provider json_output task_type additional_args w
     = codex_agent prompt agent_model ''suggest'' images provider json_output task_type
         additional_args w"
    by (simp add: codex_agent_def run_codex_def b)
  show "codex_interactive initial_prompt agent_model [] provider w
     = codex_interactive initial_prompt agent_model ''suggest'' provider w"
    by (simp add: codex_interactive_def)
  show "map_of (fst (codex_interactive initial_prompt agent_model [] provider w)) ''command''
     = Some (PStr (join '' ''
          ([''codex'']
           @ (if agent_model \<noteq> [] then [''--model'', agent_model] else [])
           @ (case provider of
                Some p \<Rightarrow> if p \<noteq> [] then [''--provider'', p] else []
              | None \<Rightarrow> [])
           @ (case initial_prompt of Some p \<Rightarrow> if p \<noteq> [] then [p] else [] | None \<Rightarrow> []))))"
    by (simp add: codex_interactive_def Let_def split: option.splits)
qed

subsection \<open>The two tools\<close>

text \<open>
  Claim C9. Whatever its arguments, \<open>codex_interactive\<close> leaves the world as it found it,
  so that no argument vector is handed to \<open>subprocess.run\<close>; it returns the joined command
  line that would start the session (\<open>codex\<close>, the model, the provider, the approval mode
  unless it is \<open>suggest\<close> or empty, the initial prompt) with a status, a message, a note
  and instructions that do not depend on the arguments.
\<close>

theorem codex_interactive_only_reports:
  "snd (codex_interactive initial_prompt model approval_mode provider w) = w
   \<and> spawn_calls (snd (codex_interactive initial_prompt model approval_mode provider w))
       = spawn_calls w
   \<and> fst (codex_interactive initial_prompt model approval_mode provider w)
       = [(''status'', PStr ''info''),
          (''message'',
             PStr ''Interactive Codex session would be started with the following command:''),
          (''command'', PStr (join '' ''
             ([''codex'']
              @ (if model \<noteq> [] then [''--model'', model] else [])
              @ (case provider of
                   Some p \<Rightarrow> if p \<noteq> [] then [''--provider'', p] else []
                 | None \<Rightarrow> [])
              @ (if approval_mode \<noteq> [] \<and> approval_mode \<noteq> ''suggest''
                 then [''--approval-mode'', approval_mode] else [])
              @ (case initial_prompt of
                   Some p \<Rightarrow> if p \<noteq> [] then [p] else []
                 | None \<Rightarrow> [])))),
          (''note'',
             PStr ''This requires terminal access. For automated tasks, use codex_agent instead.''),
          (''instructions'',
             PList [''Run this command in your terminal to start the interactive session'',
                    ''Type 'exit' or press Ctrl+C to end the session'',
                    ''Use different approval modes for varying levels of autonomy''])]"
proof (intro conjI)
  show w: "snd (codex_interactive initial_prompt model approval_mode provider w) = w"
    by (simp add: codex_interactive_def Let_def)
  then show "spawn_calls (snd (codex_interactive initial_prompt model approval_mode provider w))
       = spawn_calls w"
    by simp
  show "fst (codex_interactive initial_prompt model approval_mode provider w)
       = [(''status'', PStr ''info''),
          (''message'',
             PStr ''Interactive Codex session would be started with the following command:''),
          (''command'', PStr (join '' ''
             ([''codex'']
              @ (if model \<noteq> [] then [''--model'', model] else [])
              @ (case provider of
                   Some p \<Rightarrow> if p \<noteq> [] then [''--provider'', p] else []
                 | None \<Rightarrow> [])
              @ (if approval_mode \<noteq> [] \<and> approval_mode \<noteq> ''suggest''
                 then [''--approval-mode'', approval_mode] else [])
              @ (case initial_prompt of
                   Some p \<Rightarrow> if p \<noteq> [] then [p] else []
                 | None \<Rightarrow> [])))),
          (''note'',
             PStr ''This requires terminal access. For automated tasks, use codex_agent instead.''),
          (''instructions'',
             PList [''Run this command in your terminal to start the interactive session'',
                    ''Type 'exit' or press Ctrl+C to end the session'',
                    ''Use different approval modes for varying levels of autonomy''])]"
    by (simp add: codex_interactive_def Let_def split: option.splits)
qed

text \<open>
  Claim C1. With the empty prompt \<open>codex_agent\<close> returns the dictionary with status
  \<open>error\<close> and the error \<open>Missing required parameter: prompt\<close> and nothing else: there is
  no \<open>command\<close> key, and the world is the one before, with no call of \<open>subprocess.run\<close>,
  no new file and nothing printed.
\<close>

theorem codex_agent_empty_prompt:
  "codex_agent [] model approval_mode images provider json_output task_type additional_args w
     = (Inr [(''status'', PStr ''error''),
             (''error'', PStr ''Missing required parameter: prompt'')], w)
   \<and> (\<exists>d. fst (codex_agent [] model approval_mode images provider json_output task_type
                 additional_args w) = Inr d
          \<and> map_of d ''error'' = Some (PStr ''Missing required parameter: prompt'')
          \<and> map_of d ''command'' = None)
   \<and> spawn_calls (snd (codex_agent [] model approval_mode images provider json_output task_type
                         additional_args w)) = spawn_calls w"
  by (simp add: codex_agent_def)

subsection \<open>Running the command\<close>

lemma strip_between_whitespace:
  "\<exists>l r. s = l @ strip s @ r \<and> list_all isspace l \<and> list_all isspace r"
proof -
  let ?t = "dropWhile isspace s"
  let ?l = "takeWhile isspace s"
  let ?u = "dropWhile isspace (rev ?t)"
  let ?r = "takeWhile isspace (rev ?t)"
  have "rev (?r @ ?u) = rev (rev ?t)" by (simp only: takeWhile_dropWhile_id)
  then have "rev ?u @ rev ?r = ?t" by (simp only: rev_append rev_rev_ident)
  then have t: "?t = rev ?u @ rev ?r" by (rule sym)
  have "s = ?l @ ?t" by simp
  also have "?t = strip s @ rev ?r" unfolding strip_def by (rule t)
  finally have "s = ?l @ strip s @ rev ?r" .
  moreover have "list_all isspace ?l"
    by (auto simp: list_all_iff dest: set_takeWhileD)
  moreover have "list_all isspace (rev ?r)"
    by (auto simp: list_all_iff dest: set_takeWhileD)
  ultimately show ?thesis by blast
qed

lemma strip_ends:
  assumes "strip s \<noteq> []"
  shows "\<not> isspace (hd (strip s)) \<and> \<not> isspace (last (strip s))"
proof -
  let ?t = "dropWhile isspace s"
  let ?u = "dropWhile isspace (rev ?t)"
  let ?r = "takeWhile isspace (rev ?t)"
  from assms have u: "?u \<noteq> []" by (simp add: strip_def)
  then have "\<not> isspace (hd ?u)" by (rule hd_dropWhile)
  moreover from u have "last (strip s) = hd ?u"
    by (simp add: strip_def last_rev)
  ultimately have last: "\<not> isspace (last (strip s))" by simp
  have "rev (?r @ ?u) = rev (rev ?t)" by (simp only: takeWhile_dropWhile_id)
  then have "rev ?u @ rev ?r = ?t" by (simp only: rev_append rev_rev_ident)
  then have t: "?t = strip s @ rev ?r" unfolding strip_def by (rule sym)
  from t assms have "?t \<noteq> []" by (metis append_is_Nil_conv)
  then have "\<not> isspace (hd ?t)" by (rule hd_dropWhile)
  moreover from t assms have "hd ?t = hd (strip s)"
    by (metis hd_append2)
  ultimately show ?thesis using last by simp
qed

text \<open>
  Claim C2, as amended. For every argument vector the \<open>try\<close> statement around
  \<open>subprocess.run\<close> hands the vector to \<open>subprocess.run\<close> once, and its result has status
  \<open>success\<close> exactly when the child exits with code 0 and its captured output decodes as
  text. Then \<open>output\<close> is the standard output stripped (what is cut off at either end is
  whitespace, and what is left neither starts nor ends with whitespace), \<open>stderr\<close> is the
  standard error as it is and \<open>command\<close> is the vector joined by spaces. When the child
  exits with another code \<open>n\<close> and its output decodes, the result has status \<open>error\<close>, the
  text of the exception, both captured texts, \<open>exit_code\<close> \<open>n\<close> and the joined command.
  When the child cannot be started at all, or its captured output does not decode, the
  result has status \<open>error\<close>, the text of the exception and the joined command, and no
  \<open>exit_code\<close>, \<open>output\<close> or \<open>stderr\<close>.
\<close>

theorem execute_result:
  "(map_of (fst (execute cmd w)) ''status'' = Some (PStr ''success'')
      \<longleftrightarrow> (\<exists>out err. child w cmd = Exited 0 out err))
   \<and> (child w cmd = Exited 0 out err \<longrightarrow>
        fst (execute cmd w)
          = [(''status'', PStr ''success''),
             (''output'', PStr (strip out)),
             (''stderr'', PStr err),
             (''command'', PStr (join '' '' cmd))])
   \<and> (\<exists>l r. out = l @ strip out @ r \<and> list_all isspace l \<and> list_all isspace r)
   \<and> (strip out \<noteq> [] \<longrightarrow> \<not> isspace (hd (strip out)) \<and> \<not> isspace (last (strip out)))
   \<and> (child w cmd = Exited n out err \<and> n \<noteq> 0 \<longrightarrow>
        fst (execute cmd w)
          = [(''status'', PStr ''error''),
             (''error'', PStr (called_process_error_str w cmd n)),
             (''output'', PStr out),
             (''stderr'', PStr err),
             (''exit_code'', PInt n),
             (''command'', PStr (join '' '' cmd))])
   \<and> (child w cmd = NotRun msg \<or> child w cmd = ExitedUndecodable n msg \<longrightarrow>
        fst (execute cmd w)
          = [(''status'', PStr ''error''),
             (''error'', PStr msg),
             (''command'', PStr (join '' '' cmd))]
        \<and> map_of (fst (execute cmd w)) ''exit_code'' = None
        \<and> map_of (fst (execute cmd w)) ''output'' = None
        \<and> map_of (fst (execute cmd w)) ''stderr'' = None)
   \<and> spawn_calls (snd (execute cmd w)) = spawn_calls w @ [cmd]"
proof (intro conjI impI)
  show "map_of (fst (execute cmd w)) ''status'' = Some (PStr ''success'')
      \<longleftrightarrow> (\<exists>out err. child w cmd = Exited 0 out err)"
  proof (cases "child w cmd")
    case (Exited rc out err)
    then show ?thesis
      by (cases "rc = 0") (simp_all add: execute_def subprocess_run_def Let_def)
  next
    case (ExitedUndecodable rc msg)
    then show ?thesis
      by (simp add: execute_def subprocess_run_def Let_def)
  next
    case (NotRun msg)
    then show ?thesis
      by (simp add: execute_def subprocess_run_def Let_def)
  qed
  show "\<exists>l r. out = l @ strip out @ r \<and> list_all isspace l \<and> list_all isspace r"
    by (rule strip_between_whitespace)
  show "\<not> isspace (hd (strip out))" and "\<not> isspace (last (strip out))"
    if "strip out \<noteq> []"
    using strip_ends [OF that] by simp_all
  show "fst (execute cmd w)
          = [(''status'', PStr ''success''),
             (''output'', PStr (strip out)),
             (''stderr'', PStr err),
             (''command'', PStr (join '' '' cmd))]"
    if "child w cmd = Exited 0 out err"
    using that by (simp add: execute_def subprocess_run_def Let_def)
  show "fst (execute cmd w)
          = [(''status'', PStr ''error''),
             (''error'', PStr (called_process_error_str w cmd n)),
             (''output'', PStr out),
             (''stderr'', PStr err),
             (''exit_code'', PInt n),
             (''command'', PStr (join '' '' cmd))]"
    if "child w cmd = Exited n out err \<and> n \<noteq> 0"
    using that by (simp add: execute_def subprocess_run_def Let_def)
  show three: "fst (execute cmd w)
          = [(''status'', PStr ''error''),
             (''error'', PStr msg),
             (''command'', PStr (join '' '' cmd))]"
    if "child w cmd = NotRun msg \<or> child w cmd = ExitedUndecodable n msg"
    using that by (auto simp add: execute_def subprocess_run_def Let_def)
  show "map_of (fst (execute cmd w)) ''exit_code'' = None"
    and "map_of (fst (execute cmd w)) ''output'' = None"
    and "map_of (fst (execute cmd w)) ''stderr'' = None"
    if "child w cmd = NotRun msg \<or> child w cmd = ExitedUndecodable n msg"
    using three [OF that] by simp_all
  show "spawn_calls (snd (execute cmd w)) = spawn_calls w @ [cmd]"
  proof (cases "child w cmd")
    case (Exited rc out err)
    then show ?thesis
      by (cases "rc = 0")
        (simp_all add: execute_def subprocess_run_def Let_def print_stderr_def)
  next
    case (ExitedUndecodable rc msg)
    then show ?thesis
      by (simp add: execute_def subprocess_run_def Let_def print_stderr_def)
  next
    case (NotRun msg)
    then show ?thesis
      by (simp add: execute_def subprocess_run_def Let_def print_stderr_def)
  qed
qed

theorem execute_result_witness:
  "child world0 [''codex'', ''hi''] = Exited 0 ''ok\<newline>'' []
   \<and> fst (execute [''codex'', ''hi''] world0)
       = [(''status'', PStr ''success''), (''output'', PStr ''ok''), (''stderr'', PStr []),
          (''command'', PStr ''codex hi'')]
   \<and> strip ''ok\<newline>'' \<noteq> []
   \<and> \<not> isspace (hd (strip ''ok\<newline>'')) \<and> \<not> isspace (last (strip ''ok\<newline>''))
   \<and> child (world0\<lparr>child := \<lambda>cmd. Exited 3 ''part'' ''boom''\<rparr>) [''codex'', ''hi'']
       = Exited 3 ''part'' ''boom''
   \<and> (3 :: int) \<noteq> 0
   \<and> fst (execute [''codex'', ''hi''] (world0\<lparr>child := \<lambda>cmd. Exited 3 ''part'' ''boom''\<rparr>))
       = [(''status'', PStr ''error''), (''error'', PStr ''Command failed''),
          (''output'', PStr ''part''), (''stderr'', PStr ''boom''), (''exit_code'', PInt 3),
          (''command'', PStr ''codex hi'')]
   \<and> child (world0\<lparr>child := \<lambda>cmd. NotRun ''codex not found''\<rparr>) [''codex'', ''hi'']
       = NotRun ''codex not found''
   \<and> fst (execute [''codex'', ''hi''] (world0\<lparr>child := \<lambda>cmd. NotRun ''codex not found''\<rparr>))
       = [(''status'', PStr ''error''), (''error'', PStr ''codex not found''),
          (''command'', PStr ''codex hi'')]
   \<and> map_of (fst (execute [''codex'', ''hi'']
         (world0\<lparr>child := \<lambda>cmd. NotRun ''codex not found''\<rparr>))) ''exit_code'' = None
   \<and> child (world0\<lparr>child := \<lambda>cmd. ExitedUndecodable 3 ''invalid start byte''\<rparr>)
         [''codex'', ''hi''] = ExitedUndecodable 3 ''invalid start byte''
   \<and> fst (execute [''codex'', ''hi'']
         (world0\<lparr>child := \<lambda>cmd. ExitedUndecodable 3 ''invalid start byte''\<rparr>))
       = [(''status'', PStr ''error''), (''error'', PStr ''invalid start byte''),
          (''command'', PStr ''codex hi'')]"
proof -
  have s: "strip ''ok\<newline>'' = ''ok''"
    by (simp add: strip_def isspace_def)
  have c: "called_process_error_str world0 [''codex'', ''hi''] 3 = ''Command failed''"
    by (simp add: world0_def)
  from execute_result [of "[''codex'', ''hi'']" world0 "''ok\<newline>''" "[]" 0 "[]"]
  have ok: "fst (execute [''codex'', ''hi''] world0)
       = [(''status'', PStr ''success''), (''output'', PStr ''ok''), (''stderr'', PStr []),
          (''command'', PStr ''codex hi'')]"
    and ends: "\<not> isspace (hd (strip ''ok\<newline>'')) \<and> \<not> isspace (last (strip ''ok\<newline>''))"
    by (simp_all add: world0_def s)
  from execute_result [of "[''codex'', ''hi'']"
      "world0\<lparr>child := \<lambda>cmd. Exited 3 ''part'' ''boom''\<rparr>" "''part''" "''boom''" 3 "[]"]
  have err: "fst (execute [''codex'', ''hi''] (world0\<lparr>child := \<lambda>cmd. Exited 3 ''part'' ''boom''\<rparr>))
       = [(''status'', PStr ''error''), (''error'', PStr ''Command failed''),
          (''output'', PStr ''part''), (''stderr'', PStr ''boom''), (''exit_code'', PInt 3),
          (''command'', PStr ''codex hi'')]"
    by (simp add: c)
  from execute_result [of "[''codex'', ''hi'']"
      "world0\<lparr>child := \<lambda>cmd. NotRun ''codex not found''\<rparr>" "[]" "[]" 0 "''codex not found''"]
  have nr: "fst (execute [''codex'', ''hi''] (world0\<lparr>child := \<lambda>cmd. NotRun ''codex not found''\<rparr>))
       = [(''status'', PStr ''error''), (''error'', PStr ''codex not found''),
          (''command'', PStr ''codex hi'')]"
    and nr2: "map_of (fst (execute [''codex'', ''hi'']
         (world0\<lparr>child := \<lambda>cmd. NotRun ''codex not found''\<rparr>))) ''exit_code'' = None"
    by simp_all
  from execute_result [of "[''codex'', ''hi'']"
      "world0\<lparr>child := \<lambda>cmd. ExitedUndecodable 3 ''invalid start byte''\<rparr>" "[]" "[]" 3
      "''invalid start byte''"]
  have ud: "fst (execute [''codex'', ''hi'']
         (world0\<lparr>child := \<lambda>cmd. ExitedUndecodable 3 ''invalid start byte''\<rparr>))
       = [(''status'', PStr ''error''), (''error'', PStr ''invalid start byte''),
          (''command'', PStr ''codex hi'')]"
    by simp
  have "child world0 [''codex'', ''hi''] = Exited 0 ''ok\<newline>'' []"
    by (simp add: world0_def)
  with ok ends err nr nr2 ud s show ?thesis by simp
qed

text \<open>
  The claim as it was stated fails on a child that exits with code 0 after writing the
  byte 0xFF: the result is the one of an exception, not a success. It fails likewise on
  a child that exits with code 3 after writing that byte: the result has no \<open>exit_code\<close>.
\<close>

theorem execute_undecodable_counterexample:
  "exit_code_of (child (world0\<lparr>child := \<lambda>cmd. ExitedUndecodable 0
       ''utf-8 codec cannot decode byte 0xff in position 0: invalid start byte''\<rparr>)
       [''codex'', ''hi'']) = Some 0
   \<and> fst (execute [''codex'', ''hi''] (world0\<lparr>child := \<lambda>cmd. ExitedUndecodable 0
       ''utf-8 codec cannot decode byte 0xff in position 0: invalid start byte''\<rparr>))
       = [(''status'', PStr ''error''),
          (''error'',
             PStr ''utf-8 codec cannot decode byte 0xff in position 0: invalid start byte''),
          (''command'', PStr ''codex hi'')]
   \<and> map_of (fst (execute [''codex'', ''hi''] (world0\<lparr>child := \<lambda>cmd. ExitedUndecodable 0
       ''utf-8 codec cannot decode byte 0xff in position 0: invalid start byte''\<rparr>))) ''status''
       \<noteq> Some (PStr ''success'')
   \<and> exit_code_of (child (world0\<lparr>child := \<lambda>cmd. ExitedUndecodable 3
       ''utf-8 codec cannot decode byte 0xff in position 0: invalid start byte''\<rparr>)
       [''codex'', ''hi'']) = Some 3
   \<and> map_of (fst (execute [''codex'', ''hi''] (world0\<lparr>child := \<lambda>cmd. ExitedUndecodable 3
       ''utf-8 codec cannot decode byte 0xff in position 0: invalid start byte''\<rparr>))) ''exit_code''
       = None"
  by (simp add: execute_def subprocess_run_def Let_def)

subsection \<open>Images given as data URIs\<close>

lemma NamedTemporaryFile_succeeds:
  assumes "j < tmp_max w" and "files w (tmp_names w (tmp_next w + j) @ ''.png'') = None"
  obtains temp n where
    "NamedTemporaryFile ''.png'' w = (Inr temp, w\<lparr>files := (files w)(temp \<mapsto> []), tmp_next := n\<rparr>)"
    and "files w temp = None" and "suffix ''.png'' temp"
proof -
  from mkstemp_inner_succeeds [OF assms] obtain temp w1 where
    m: "mkstemp_inner (tmp_max w) ''.png'' w = (Inr temp, w1)" by blast
  from mkstemp_inner_Inr [OF m] obtain n where
    "files w temp = None" "suffix ''.png'' temp"
    "w1 = w\<lparr>files := (files w)(temp \<mapsto> []), tmp_next := n\<rparr>" by blast
  with m that show thesis by (simp add: NamedTemporaryFile_def)
qed

lemma NamedTemporaryFile_world0:
  "NamedTemporaryFile ''.png'' world0
     = (Inr ''/tmp/tmp.png'',
        world0\<lparr>tmp_next := Suc 0, files := [''/tmp/tmp.png'' \<mapsto> []]\<rparr>)"
proof -
  have "0 < tmp_max world0" by (simp add: world0_def)
  moreover have "files world0 (tmp_names world0 (tmp_next world0) @ ''.png'') = None"
    by (simp add: world0_def)
  ultimately have "mkstemp_inner (tmp_max world0) ''.png'' world0 =
           (Inr (tmp_names world0 (tmp_next world0) @ ''.png''),
            world0\<lparr>tmp_next := Suc (tmp_next world0),
              files := (files world0)(tmp_names world0 (tmp_next world0) @ ''.png'' \<mapsto> [])\<rparr>)"
    by (rule mkstemp_inner_first_free)
  moreover have "tmp_names world0 (tmp_next world0) @ ''.png'' = ''/tmp/tmp.png''"
    and "tmp_next world0 = 0" and "files world0 = Map.empty"
    by (simp_all add: world0_def)
  ultimately show ?thesis by (simp add: NamedTemporaryFile_def)
qed

lemma b64decode_QUJD: "b64decode ''QUJD'' = Inr ''ABC''"
  by (simp add: b64decode_def b64_value_def char_of_def bit_iff_odd)

lemma data_png_base64_QUJD:
  "startswith ''data:image/png;base64,QUJD'' ''data:''"
  "str_contains ''base64,'' ''data:image/png;base64,QUJD''"
  "split_comma1 ''data:image/png;base64,QUJD'' = [''data:image/png;base64'', ''QUJD'']"
  by (simp_all add: startswith_def split_comma1_def)

lemma build_command_one_image:
  assumes "resolve_image image_path w = (Inr temp, w')"
  shows "build_command prompt model (Some [image_path]) approval_mode quiet json_output provider
           additional_args w
         = (Inr (argv_in_order quiet json_output model provider approval_mode [temp]
                   (or_empty additional_args) prompt), w')"
proof -
  from assms have "resolve_images [image_path] w = (Inr [temp], w')" by simp
  moreover have "or_empty (Some [image_path]) = [image_path]" by (simp add: or_empty_def)
  ultimately show ?thesis by (simp add: build_command_closed)
qed

lemma argv_in_order_image:
  "\<exists>pre post. argv_in_order quiet json_output model provider approval_mode [temp] extra prompt
      = pre @ [''--image'', temp] @ post"
proof -
  let ?pre = "[''codex'']
              @ (if quiet then [''--quiet''] else [])
              @ (if json_output then [''--json''] else [])
              @ (case model of
                   Some m \<Rightarrow> if m \<noteq> [] then [''--model'', m] else []
                 | None \<Rightarrow> [])
              @ (case provider of
                   Some p \<Rightarrow> if p \<noteq> [] then [''--provider'', p] else []
                 | None \<Rightarrow> [])
              @ (if approval_mode \<noteq> [] \<and> approval_mode \<noteq> ''suggest''
                 then [''--approval-mode'', approval_mode] else [])"
  have "argv_in_order quiet json_output model provider approval_mode [temp] extra prompt
      = ?pre @ [''--image'', temp] @ (extra @ [prompt])"
    by (simp add: argv_in_order_def)
  then show ?thesis by blast
qed

text \<open>
  Claim C6. For a request whose images are the one data URI
  \<open>data:image/png;base64,QUJD\<close>, in any world where one of the names \<open>tempfile\<close> would try
  is free: the image resolves to a path that named no file before, the files afterwards
  are the ones before and the new file, whose contents are the three bytes \<open>ABC\<close> that
  \<open>QUJD\<close> decodes to, and the argument vector holds \<open>--image\<close> followed by that path.
\<close>

theorem data_uri_base64_image:
  assumes "j < tmp_max w" and "files w (tmp_names w (tmp_next w + j) @ ''.png'') = None"
  shows "\<exists>temp w' cmd.
           resolve_image ''data:image/png;base64,QUJD'' w = (Inr temp, w')
         \<and> files w temp = None
         \<and> files w' = (files w)(temp \<mapsto> ''ABC'')
         \<and> b64decode ''QUJD'' = Inr ''ABC''
         \<and> build_command prompt model (Some [''data:image/png;base64,QUJD'']) approval_mode quiet
              json_output provider additional_args w = (Inr cmd, w')
         \<and> cmd = argv_in_order quiet json_output model provider approval_mode [temp]
                   (or_empty additional_args) prompt
         \<and> (\<exists>pre post. cmd = pre @ [''--image'', temp] @ post)"
proof -
  from assms obtain temp n where
    tmp: "NamedTemporaryFile ''.png'' w
            = (Inr temp, w\<lparr>files := (files w)(temp \<mapsto> []), tmp_next := n\<rparr>)"
    and free: "files w temp = None"
    by (rule NamedTemporaryFile_succeeds)
  let ?w' = "w\<lparr>files := (files w)(temp \<mapsto> ''ABC''), tmp_next := n\<rparr>"
  have res: "resolve_image ''data:image/png;base64,QUJD'' w = (Inr temp, ?w')"
    by (simp add: resolve_image_def data_png_base64_QUJD tmp b64decode_QUJD file_write_fresh
        del: str_contains.simps)
  let ?cmd = "argv_in_order quiet json_output model provider approval_mode [temp]
                (or_empty additional_args) prompt"
  from argv_in_order_image [of quiet json_output model provider approval_mode temp
      "or_empty additional_args" prompt]
  obtain pre post where split: "?cmd = pre @ [''--image'', temp] @ post" by blast
  show ?thesis
  proof (intro exI conjI)
    show "resolve_image ''data:image/png;base64,QUJD'' w = (Inr temp, ?w')"
      by (rule res)
    show "files w temp = None"
      by (rule free)
    show "files ?w' = (files w)(temp \<mapsto> ''ABC'')"
      by simp
    show "b64decode ''QUJD'' = Inr ''ABC''"
      by (rule b64decode_QUJD)
    show "build_command prompt model (Some [''data:image/png;base64,QUJD'']) approval_mode quiet
            json_output provider additional_args w = (Inr ?cmd, ?w')"
      by (rule build_command_one_image [OF res])
    show "?cmd = ?cmd"
      by (rule refl)
    show "?cmd = pre @ [''--image'', temp] @ post"
      by (rule split)
  qed
qed

theorem data_uri_base64_image_witness:
  "0 < tmp_max world0
   \<and> files world0 (tmp_names world0 (tmp_next world0 + 0) @ ''.png'') = None
   \<and> fst (resolve_image ''data:image/png;base64,QUJD'' world0) = Inr ''/tmp/tmp.png''
   \<and> files (snd (resolve_image ''data:image/png;base64,QUJD'' world0))
       = [''/tmp/tmp.png'' \<mapsto> ''ABC'']
   \<and> (\<exists>temp w' cmd.
           resolve_image ''data:image/png;base64,QUJD'' world0 = (Inr temp, w')
         \<and> files world0 temp = None
         \<and> files w' = (files world0)(temp \<mapsto> ''ABC'')
         \<and> build_command ''draw'' None (Some [''data:image/png;base64,QUJD'']) ''suggest'' True
              False None None world0 = (Inr cmd, w')
         \<and> (\<exists>pre post. cmd = pre @ [''--image'', temp] @ post))"
proof -
  have h1: "0 < tmp_max world0" and h2: "files world0 (tmp_names world0 (tmp_next world0 + 0) @ ''.png'') = None"
    by (simp_all add: world0_def)
  have res: "resolve_image ''data:image/png;base64,QUJD'' world0
      = (Inr ''/tmp/tmp.png'',
         file_write ''/tmp/tmp.png'' ''ABC''
           (world0\<lparr>tmp_next := Suc 0, files := [''/tmp/tmp.png'' \<mapsto> []]\<rparr>))"
    by (simp add: resolve_image_def data_png_base64_QUJD NamedTemporaryFile_world0
        b64decode_QUJD del: str_contains.simps)
  have f: "files (snd (resolve_image ''data:image/png;base64,QUJD'' world0))
       = [''/tmp/tmp.png'' \<mapsto> ''ABC'']"
    unfolding res by (simp add: file_write_def)
  from data_uri_base64_image [OF h1 h2, of "''draw''" None "''suggest''" True False None None]
  have "\<exists>temp w' cmd.
           resolve_image ''data:image/png;base64,QUJD'' world0 = (Inr temp, w')
         \<and> files world0 temp = None
         \<and> files w' = (files world0)(temp \<mapsto> ''ABC'')
         \<and> build_command ''draw'' None (Some [''data:image/png;base64,QUJD'']) ''suggest'' True
              False None None world0 = (Inr cmd, w')
         \<and> (\<exists>pre post. cmd = pre @ [''--image'', temp] @ post)"
    by blast
  with h1 h2 res f show ?thesis by simp
qed

lemma data_a_b:
  "startswith ''data:a,b'' ''data:''"
  "\<not> str_contains ''base64,'' ''data:a,b''"
  "encode ''data:a,b'' = ''data:a,b''"
  "encode (drop 5 ''data:a,b'') = ''a,b''"
  "encode ''b'' = ''b''"
  by (simp_all add: startswith_def encode_def encode_char_def)

text \<open>
  Claim C7, as amended. For an image reference that starts with \<open>data:\<close> and does not
  contain \<open>base64,\<close>, in any world where one of the names \<open>tempfile\<close> would try is free:
  the reference resolves to a path that named no file before, the files afterwards are
  the ones before and the new file, whose contents are the UTF-8 encoding of the whole
  reference with its \<open>data:\<close> prefix, and the argument vector holds \<open>--image\<close> followed by
  that path.
\<close>

theorem data_uri_without_base64:
  assumes "startswith image_path ''data:''" and "\<not> str_contains ''base64,'' image_path"
    and "j < tmp_max w" and "files w (tmp_names w (tmp_next w + j) @ ''.png'') = None"
  shows "\<exists>temp w' cmd.
           resolve_image image_path w = (Inr temp, w')
         \<and> files w temp = None
         \<and> files w' = (files w)(temp \<mapsto> encode image_path)
         \<and> build_command prompt model (Some [image_path]) approval_mode quiet json_output
              provider additional_args w = (Inr cmd, w')
         \<and> cmd = argv_in_order quiet json_output model provider approval_mode [temp]
                   (or_empty additional_args) prompt
         \<and> (\<exists>pre post. cmd = pre @ [''--image'', temp] @ post)"
proof -
  from assms(3,4) obtain temp n where
    tmp: "NamedTemporaryFile ''.png'' w
            = (Inr temp, w\<lparr>files := (files w)(temp \<mapsto> []), tmp_next := n\<rparr>)"
    and free: "files w temp = None"
    by (rule NamedTemporaryFile_succeeds)
  let ?w' = "w\<lparr>files := (files w)(temp \<mapsto> encode image_path), tmp_next := n\<rparr>"
  let ?cmd = "argv_in_order quiet json_output model provider approval_mode [temp]
                (or_empty additional_args) prompt"
  from assms(1,2) have res: "resolve_image image_path w = (Inr temp, ?w')"
    by (simp add: resolve_image_def tmp file_write_fresh)
  from argv_in_order_image [of quiet json_output model provider approval_mode temp
      "or_empty additional_args" prompt]
  obtain pre post where split: "?cmd = pre @ [''--image'', temp] @ post" by blast
  show ?thesis
  proof (intro exI conjI)
    show "resolve_image image_path w = (Inr temp, ?w')"
      by (rule res)
    show "files w temp = None"
      by (rule free)
    show "files ?w' = (files w)(temp \<mapsto> encode image_path)"
      by simp
    show "build_command prompt model (Some [image_path]) approval_mode quiet json_output
            provider additional_args w = (Inr ?cmd, ?w')"
      by (rule build_command_one_image [OF res])
    show "?cmd = ?cmd"
      by (rule refl)
    show "?cmd = pre @ [''--image'', temp] @ post"
      by (rule split)
  qed
qed

theorem data_uri_without_base64_witness:
  "startswith ''data:a,b'' ''data:'' \<and> \<not> str_contains ''base64,'' ''data:a,b''
   \<and> 0 < tmp_max world0
   \<and> files world0 (tmp_names world0 (tmp_next world0 + 0) @ ''.png'') = None
   \<and> (\<exists>temp w' cmd.
           resolve_image ''data:a,b'' world0 = (Inr temp, w')
         \<and> files world0 temp = None
         \<and> files w' = (files world0)(temp \<mapsto> ''data:a,b'')
         \<and> build_command ''draw'' None (Some [''data:a,b'']) ''suggest'' True False None None
              world0 = (Inr cmd, w')
         \<and> (\<exists>pre post. cmd = pre @ [''--image'', temp] @ post))"
proof -
  have h1: "0 < tmp_max world0"
    and h2: "files world0 (tmp_names world0 (tmp_next world0 + 0) @ ''.png'') = None"
    by (simp_all add: world0_def)
  from data_uri_without_base64 [OF data_a_b(1) data_a_b(2) h1 h2,
      of "''draw''" None "''suggest''" True False None None]
  have "\<exists>temp w' cmd.
           resolve_image ''data:a,b'' world0 = (Inr temp, w')
         \<and> files world0 temp = None
         \<and> files w' = (files world0)(temp \<mapsto> ''data:a,b'')
         \<and> build_command ''draw'' None (Some [''data:a,b'']) ''suggest'' True False None None
              world0 = (Inr cmd, w')
         \<and> (\<exists>pre post. cmd = pre @ [''--image'', temp] @ post)"
    unfolding data_a_b(3) by blast
  with data_a_b(1) data_a_b(2) h1 h2 show ?thesis by blast
qed

text \<open>
  The claim as it was stated fails on \<open>data:a,b\<close>: the file written holds the whole
  reference, not what follows \<open>data:\<close> and not what follows the comma.
\<close>

theorem data_uri_without_base64_counterexample:
  "startswith ''data:a,b'' ''data:'' \<and> \<not> str_contains ''base64,'' ''data:a,b''
   \<and> fst (resolve_image ''data:a,b'' world0) = Inr ''/tmp/tmp.png''
   \<and> files (snd (resolve_image ''data:a,b'' world0)) ''/tmp/tmp.png'' = Some ''data:a,b''
   \<and> encode (drop 5 ''data:a,b'') = ''a,b''
   \<and> files (snd (resolve_image ''data:a,b'' world0)) ''/tmp/tmp.png''
       \<noteq> Some (encode (drop 5 ''data:a,b''))
   \<and> files (snd (resolve_image ''data:a,b'' world0)) ''/tmp/tmp.png'' \<noteq> Some (encode ''b'')"
proof -
  have res: "resolve_image ''data:a,b'' world0
      = (Inr ''/tmp/tmp.png'',
         file_write ''/tmp/tmp.png'' ''data:a,b''
           (world0\<lparr>tmp_next := Suc 0, files := [''/tmp/tmp.png'' \<mapsto> []]\<rparr>))"
    by (simp add: resolve_image_def data_a_b NamedTemporaryFile_world0 del: str_contains.simps)
  have f: "files (snd (resolve_image ''data:a,b'' world0)) ''/tmp/tmp.png'' = Some ''data:a,b''"
    unfolding res by (simp add: file_write_def)
  have r: "fst (resolve_image ''data:a,b'' world0) = Inr ''/tmp/tmp.png''"
    unfolding res by simp
  show ?thesis
    unfolding f r data_a_b(4) data_a_b(5) using data_a_b(1) data_a_b(2) by simp
qed

end
